theory Spec2Isabelle
  imports Complex_Main
begin

section \<open>Numeric model\<close>

text \<open>
  The script SGD.py computes with Python floats and numpy arrays. Two embeddings are
  given. The first computes with exact real numbers: a one-dimensional array (or a Python
  list of numbers) is a \<open>real list\<close>, labels and the scenario selector are \<open>int\<close>. It carries
  the statements about the shape of the computation, which rounding does not touch: the
  branches taken, the length of the trajectory, the step size formula, the range of a
  clamped coordinate. The second computes with IEEE 754 doubles, rounding after every
  operation, and carries the statements that an exact model would wrongly make true:
  equalities between computed numbers, and inequalities that overflow or rounding can
  break. Where the script raises an exception, either model returns \<open>Inl\<close> of an \<open>error\<close>.
\<close>

datatype error =
    ValueError   \<comment> \<open>raised by numpy: misaligned shapes in \<open>np.dot\<close>, \<open>np.min\<close> of an empty list\<close>

definition inputDimension :: nat where
  "inputDimension = 5"

definition negativeCenter :: real where
  "negativeCenter = - (1 / 5)"

definition positiveCenter :: real where
  "positiveCenter = 1 / 5"

definition num_test_samples :: nat where
  "num_test_samples = 400"

section \<open>Geometry: norm and project\<close>

text \<open>
  \<open>norm\<close> accumulates the squares from left to right, starting from 0, and takes the
  square root of the total.
\<close>

definition norm_vec :: "real list \<Rightarrow> real" where
  "norm_vec vector = sqrt (fold (\<lambda>x acc. acc + x * x) vector 0)"

text \<open>
  \<open>project\<close> overwrites the entries of its argument one index at a time and returns the
  same list object; the model returns the resulting contents. Scenario 1 visits every
  index and clamps the entry; scenario 2 computes the norm once, before the loop, and
  divides every entry by it when it exceeds 1; any other scenario takes neither branch.
\<close>

definition clamp_coord :: "real \<Rightarrow> real" where
  "clamp_coord x = (if x > 1 then 1 else if x < - 1 then - 1 else x)"

definition project :: "int \<Rightarrow> real list \<Rightarrow> real list" where
  "project scenario u_vector =
     (if scenario = 1 then map clamp_coord u_vector
      else if scenario = 2 then
        (let norm_u_vector = norm_vec u_vector
         in if norm_u_vector > 1 then map (\<lambda>x. x / norm_u_vector) u_vector
            else u_vector)
      else u_vector)"

section \<open>Losses\<close>

text \<open>
  \<open>np.dot\<close> of two one-dimensional arrays is the sum of the products of corresponding
  entries, and raises ValueError when the lengths differ.
\<close>

definition dot :: "real list \<Rightarrow> real list \<Rightarrow> real" where
  "dot w x = sum_list (map2 (*) w x)"

definition np_dot :: "real list \<Rightarrow> real list \<Rightarrow> error + real" where
  "np_dot w x = (if length w = length x then Inr (dot w x) else Inl ValueError)"

text \<open>\<open>int(np.sign(np.dot(w, x)) != y)\<close>: the comparison gives a boolean, \<open>int\<close> maps it to 0 or 1.\<close>

definition binary_loss :: "real list \<Rightarrow> real list \<Rightarrow> int \<Rightarrow> error + int" where
  "binary_loss w x y =
     (case np_dot w x of
        Inl e \<Rightarrow> Inl e
      | Inr d \<Rightarrow> Inr (if sgn d \<noteq> real_of_int y then 1 else 0))"

text \<open>\<open>-1/(1 + np.exp(y*np.dot(W, X))) * y * X\<close>: a scalar times the array \<open>X\<close>.\<close>

definition logistic_loss_gradient :: "real list \<Rightarrow> real list \<Rightarrow> int \<Rightarrow> error + real list" where
  "logistic_loss_gradient W X y =
     (case np_dot W X of
        Inl e \<Rightarrow> Inl e
      | Inr d \<Rightarrow>
          Inr (map (\<lambda>x. (- 1 / (1 + exp (real_of_int y * d)) * real_of_int y) * x) X))"

section \<open>Sampler\<close>

text \<open>
  The script draws from Python's process-wide generator. The model threads the generator
  state \<open>'s\<close> explicitly and takes the two primitives the script calls as parameters:
  \<open>pick_first\<close> stands for \<open>random.sample([-1,1], 1)[0]\<close> and tells whether the first
  element of the population, -1, was drawn; \<open>gauss\<close> stands for \<open>random.gauss(mu, sigma)\<close>.
\<close>

record 's random =
  pick_first :: "'s \<Rightarrow> bool \<times> 's"
  gauss :: "real \<Rightarrow> real \<Rightarrow> 's \<Rightarrow> real \<times> 's"

text \<open>\<open>[random.gauss(mu, sigma) for i in range(n)]\<close>, drawing from left to right.\<close>

fun gauss_list :: "'s random \<Rightarrow> real \<Rightarrow> real \<Rightarrow> nat \<Rightarrow> 's \<Rightarrow> real list \<times> 's" where
  "gauss_list R mu sigma 0 st = ([], st)"
| "gauss_list R mu sigma (Suc n) st =
     (case gauss R mu sigma st of (g, st1) \<Rightarrow>
        (case gauss_list R mu sigma n st1 of (gs, st2) \<Rightarrow> (g # gs, st2)))"

definition get_Sample_Point :: "'s random \<Rightarrow> int \<Rightarrow> real \<Rightarrow> 's \<Rightarrow> (real list \<times> int) \<times> 's" where
  "get_Sample_Point R scenario sigma st =
     (case pick_first R st of (first, st1) \<Rightarrow>
        (let y = (if first then - 1 else 1) in
         (case (if y = - 1 then gauss_list R negativeCenter sigma inputDimension st1
                else gauss_list R positiveCenter sigma inputDimension st1) of
            (u_vector, st2) \<Rightarrow>
              (let x_list = project scenario u_vector @ [1] in ((x_list, y), st2)))))"

section \<open>Trainer\<close>

definition sgd_M :: "int \<Rightarrow> real" where
  "sgd_M scenario = (if scenario = 1 then sqrt (2 ^ 2 * real (inputDimension + 1)) else 2)"

definition learning_rate :: "int \<Rightarrow> int \<Rightarrow> real" where
  "learning_rate num_training_samples scenario =
     (let M = sgd_M scenario; rho = M / 2
      in M / (rho * sqrt (real_of_int num_training_samples)))"

text \<open>
  The body of the training loop: draw a sample, step against the gradient, project.
  \<open>np.dot\<close> inside the gradient has already checked that \<open>W\<close> and \<open>X\<close> have the same
  length, so the subtraction \<open>W - learning_rate * gradient\<close> is entry by entry.
\<close>

definition sgd_update ::
  "'s random \<Rightarrow> int \<Rightarrow> real \<Rightarrow> real \<Rightarrow> real list \<Rightarrow> 's \<Rightarrow> error + (real list \<times> 's)" where
  "sgd_update R scenario sigma lr W st =
     (case get_Sample_Point R scenario sigma st of ((X, y), st1) \<Rightarrow>
        (case logistic_loss_gradient W X y of
           Inl e \<Rightarrow> Inl e
         | Inr g \<Rightarrow> Inr (project scenario (map2 (-) W (map ((*) lr) g)), st1)))"

text \<open>\<open>for i in range(1, num_training_samples)\<close>: the first argument counts the rounds left.\<close>

fun sgd_loop ::
  "nat \<Rightarrow> 's random \<Rightarrow> int \<Rightarrow> real \<Rightarrow> real \<Rightarrow> real list \<Rightarrow> real list list \<Rightarrow> 's
     \<Rightarrow> error + (real list list \<times> 's)" where
  "sgd_loop 0 R scenario sigma lr W W_list st = Inr (W_list, st)"
| "sgd_loop (Suc k) R scenario sigma lr W W_list st =
     (case sgd_update R scenario sigma lr W st of
        Inl e \<Rightarrow> Inl e
      | Inr (W', st1) \<Rightarrow> sgd_loop k R scenario sigma lr W' (W_list @ [W']) st1)"

text \<open>
  \<open>np.average(np.array(W_list), axis=0)\<close>: the rows must form a rectangular array, and
  entry \<open>j\<close> of the result is the sum of the entries \<open>j\<close> of the rows over their number.
\<close>

definition np_average_axis0 :: "real list list \<Rightarrow> error + real list" where
  "np_average_axis0 rows =
     (case rows of
        [] \<Rightarrow> Inl ValueError
      | first # _ \<Rightarrow>
          if list_all (\<lambda>row. length row = length first) rows
          then Inr (map (\<lambda>j. sum_list (map (\<lambda>row. row ! j) rows) / real (length rows))
                        [0 ..< length first])
          else Inl ValueError)"

text \<open>The list \<open>W_list\<close> at the end of the loop, with the generator state reached.\<close>

definition sgd_trajectory ::
  "'s random \<Rightarrow> int \<Rightarrow> int \<Rightarrow> real \<Rightarrow> 's \<Rightarrow> error + (real list list \<times> 's)" where
  "sgd_trajectory R num_training_samples scenario sigma st =
     (let learning_rate = learning_rate num_training_samples scenario;
          W = replicate (inputDimension + 1) 0
      in sgd_loop (nat (num_training_samples - 1)) R scenario sigma learning_rate W [W] st)"

definition sgd :: "'s random \<Rightarrow> int \<Rightarrow> int \<Rightarrow> real \<Rightarrow> 's \<Rightarrow> error + (real list \<times> 's)" where
  "sgd R num_training_samples scenario sigma st =
     (case sgd_trajectory R num_training_samples scenario sigma st of
        Inl e \<Rightarrow> Inl e
      | Inr (W_list, st') \<Rightarrow>
          (case np_average_axis0 W_list of Inl e \<Rightarrow> Inl e | Inr W \<Rightarrow> Inr (W, st')))"

text \<open>The generator state after \<open>k\<close> samples have been drawn.\<close>

fun rng_after :: "nat \<Rightarrow> 's random \<Rightarrow> int \<Rightarrow> real \<Rightarrow> 's \<Rightarrow> 's" where
  "rng_after 0 R scenario sigma st = st"
| "rng_after (Suc k) R scenario sigma st =
     rng_after k R scenario sigma (snd (get_Sample_Point R scenario sigma st))"

text \<open>A concrete generator for worked examples: a counter.\<close>

definition counter_random :: "nat random" where
  "counter_random =
     \<lparr> pick_first = (\<lambda>n. (even n, Suc n)),
       gauss = (\<lambda>mu sigma n. (mu + sigma * real n, Suc n)) \<rparr>"

section \<open>Double-precision arithmetic\<close>

text \<open>
  Python floats and numpy's float64 are IEEE 754 binary64 numbers. A \<open>double\<close> is a finite
  value, an infinity or NaN; the sign of zero is not recorded (the script never divides
  by a zero that an underflow produced). \<open>rnd\<close> rounds a real number to the nearest
  binary64 value, ties to even, with gradual underflow below \<open>2^-1022\<close> and overflow to
  infinity from \<open>2^1024\<close> on.
\<close>

datatype double = Num real | PosInf | NegInf | NaN

definition binade :: "real \<Rightarrow> int" where
  "binade x = max \<lfloor>log 2 \<bar>x\<bar>\<rfloor> (- 1022)"

definition ulp :: "real \<Rightarrow> real" where
  "ulp x = 2 powr (real_of_int (binade x) - 52)"

definition round_half_even :: "real \<Rightarrow> int" where
  "round_half_even t =
     (let f = \<lfloor>t\<rfloor>
      in if t - real_of_int f < 1 / 2 then f
         else if t - real_of_int f > 1 / 2 then f + 1
         else if even f then f else f + 1)"

definition nearest :: "real \<Rightarrow> real" where
  "nearest x = real_of_int (round_half_even (x / ulp x)) * ulp x"

definition rnd :: "real \<Rightarrow> double" where
  "rnd x =
     (if \<bar>nearest x\<bar> \<ge> 2 ^ 1024 then (if 0 < x then PosInf else NegInf)
      else Num (nearest x))"

text \<open>The arithmetic operations: the exact result, rounded; the IEEE rules for the rest.\<close>

fun fadd :: "double \<Rightarrow> double \<Rightarrow> double" where
  "fadd (Num a) (Num b) = rnd (a + b)"
| "fadd NaN y = NaN"
| "fadd x NaN = NaN"
| "fadd PosInf NegInf = NaN"
| "fadd NegInf PosInf = NaN"
| "fadd PosInf y = PosInf"
| "fadd x PosInf = PosInf"
| "fadd NegInf y = NegInf"
| "fadd x NegInf = NegInf"

fun fneg :: "double \<Rightarrow> double" where
  "fneg (Num a) = Num (- a)"
| "fneg PosInf = NegInf"
| "fneg NegInf = PosInf"
| "fneg NaN = NaN"

definition fsub :: "double \<Rightarrow> double \<Rightarrow> double" where
  "fsub x y = fadd x (fneg y)"

fun sign_of :: "double \<Rightarrow> real" where
  "sign_of (Num a) = sgn a"
| "sign_of PosInf = 1"
| "sign_of NegInf = - 1"
| "sign_of NaN = 0"

fun is_finite :: "double \<Rightarrow> bool" where
  "is_finite (Num a) = True"
| "is_finite x = False"

fun fmul :: "double \<Rightarrow> double \<Rightarrow> double" where
  "fmul (Num a) (Num b) = rnd (a * b)"
| "fmul NaN y = NaN"
| "fmul x NaN = NaN"
| "fmul x y =
     (if sign_of x * sign_of y = 0 then NaN
      else if sign_of x * sign_of y > 0 then PosInf else NegInf)"

fun fdiv :: "double \<Rightarrow> double \<Rightarrow> double" where
  "fdiv NaN y = NaN"
| "fdiv x NaN = NaN"
| "fdiv (Num a) (Num b) =
     (if b = 0 then (if a = 0 then NaN else if a > 0 then PosInf else NegInf)
      else rnd (a / b))"
| "fdiv (Num a) y = Num 0"
| "fdiv PosInf (Num b) = (if b < 0 then NegInf else PosInf)"
| "fdiv NegInf (Num b) = (if b < 0 then PosInf else NegInf)"
| "fdiv x y = NaN"

fun fsqrt :: "double \<Rightarrow> double" where
  "fsqrt (Num a) = (if a < 0 then NaN else rnd (sqrt a))"
| "fsqrt PosInf = PosInf"
| "fsqrt x = NaN"

text \<open>Comparisons; every comparison with NaN is false.\<close>

fun fgt :: "double \<Rightarrow> double \<Rightarrow> bool" where
  "fgt NaN y = False"
| "fgt x NaN = False"
| "fgt (Num a) (Num b) = (a > b)"
| "fgt PosInf PosInf = False"
| "fgt PosInf y = True"
| "fgt x PosInf = False"
| "fgt NegInf y = False"
| "fgt x NegInf = True"




section \<open>Geometry in double precision\<close>




section \<open>Losses and risk estimator in double precision\<close>

text \<open>
  The script does not determine how four numpy routines round: \<open>np.exp\<close> and \<open>np.log\<close> are
  accurate to about one unit in the last place but not specified bit for bit, and \<open>np.dot\<close>
  and the sum reduction behind \<open>np.average\<close> and \<open>np.std\<close> add in an order that depends on
  the length of the array and on the build. The model takes the four as parameters.
\<close>

record numpy =
  exp_f64 :: "double \<Rightarrow> double"
  log_f64 :: "double \<Rightarrow> double"
  dot_f64 :: "double list \<Rightarrow> double list \<Rightarrow> double"
  sum_f64 :: "double list \<Rightarrow> double"

text \<open>
  A reference library: exponential and logarithm correctly rounded, sums and dot products
  accumulated from left to right, starting from 0.
\<close>

fun exp_ieee :: "double \<Rightarrow> double" where
  "exp_ieee (Num a) = rnd (exp a)"
| "exp_ieee PosInf = PosInf"
| "exp_ieee NegInf = Num 0"
| "exp_ieee NaN = NaN"

fun log_ieee :: "double \<Rightarrow> double" where
  "log_ieee (Num a) = (if a < 0 then NaN else if a = 0 then NegInf else rnd (ln a))"
| "log_ieee PosInf = PosInf"
| "log_ieee x = NaN"

definition dot_ieee :: "double list \<Rightarrow> double list \<Rightarrow> double" where
  "dot_ieee w x = fold (\<lambda>(a, b) acc. fadd acc (fmul a b)) (zip w x) (Num 0)"

definition sum_ieee :: "double list \<Rightarrow> double" where
  "sum_ieee xs = fold (\<lambda>x acc. fadd acc x) xs (Num 0)"

definition ieee_numpy :: numpy where
  "ieee_numpy =
     \<lparr> exp_f64 = exp_ieee, log_f64 = log_ieee, dot_f64 = dot_ieee, sum_f64 = sum_ieee \<rparr>"

text \<open>
  What every summation order gives: the sum of one double is that double added to zero,
  the sum of two is the second added to that.
\<close>

definition sums_short_lists :: "numpy \<Rightarrow> bool" where
  "sums_short_lists L \<longleftrightarrow>
     (\<forall>a. sum_f64 L [a] = fadd (Num 0) a) \<and>
     (\<forall>a b. sum_f64 L [a, b] = fadd (fadd (Num 0) a) b)"

text \<open>\<open>np.sign\<close>: -1, 0 or 1, and NaN for NaN.\<close>

fun fsign :: "double \<Rightarrow> double" where
  "fsign (Num a) = Num (sgn a)"
| "fsign PosInf = Num 1"
| "fsign NegInf = Num (- 1)"
| "fsign NaN = NaN"

definition np_dot_f64 :: "numpy \<Rightarrow> double list \<Rightarrow> double list \<Rightarrow> error + double" where
  "np_dot_f64 L w x = (if length w = length x then Inr (dot_f64 L w x) else Inl ValueError)"

text \<open>
  \<open>int(np.sign(np.dot(w, x)) != y)\<close> on doubles; a NaN sign differs from every label.
  The label \<open>y\<close> is the integer -1 or 1 and converts to a double exactly.
\<close>

definition binary_loss_f64 :: "numpy \<Rightarrow> double list \<Rightarrow> double list \<Rightarrow> int \<Rightarrow> error + int" where
  "binary_loss_f64 L w x y =
     (case np_dot_f64 L w x of
        Inl e \<Rightarrow> Inl e
      | Inr d \<Rightarrow> Inr (if fsign d \<noteq> Num (real_of_int y) then 1 else 0))"

text \<open>\<open>np.log(1 + np.exp(-np.dot(w, x)*y))\<close>, as a function of the dot product first.\<close>

definition logistic_of_dot :: "numpy \<Rightarrow> double \<Rightarrow> int \<Rightarrow> double" where
  "logistic_of_dot L d y =
     log_f64 L (fadd (Num 1) (exp_f64 L (fmul (fneg d) (Num (real_of_int y)))))"

definition logistic_loss :: "numpy \<Rightarrow> double list \<Rightarrow> double list \<Rightarrow> int \<Rightarrow> error + double" where
  "logistic_loss L w x y =
     (case np_dot_f64 L w x of
        Inl e \<Rightarrow> Inl e
      | Inr d \<Rightarrow> Inr (logistic_of_dot L d y))"

text \<open>
  \<open>np.average\<close> of a list: the sum over the number of entries (0/0 = NaN for the empty
  list). \<open>np.min\<close> propagates NaN and raises ValueError on the empty list. \<open>np.std\<close> is the
  population standard deviation: the mean, the deviations from it, their squares, the
  sum of the squares over the number of entries, the square root.
\<close>

definition np_average :: "numpy \<Rightarrow> double list \<Rightarrow> double" where
  "np_average L xs = fdiv (sum_f64 L xs) (Num (real (length xs)))"

definition fmin :: "double \<Rightarrow> double \<Rightarrow> double" where
  "fmin a b = (if a = NaN \<or> b = NaN then NaN else if fgt a b then b else a)"

definition np_min :: "double list \<Rightarrow> error + double" where
  "np_min xs = (case xs of [] \<Rightarrow> Inl ValueError | x # rest \<Rightarrow> Inr (fold (\<lambda>b a. fmin a b) rest x))"

definition np_std :: "numpy \<Rightarrow> double list \<Rightarrow> double" where
  "np_std L xs =
     (let arrmean = np_average L xs;
          x = map (\<lambda>a. fsub a arrmean) xs;
          x2 = map (\<lambda>a. fmul a a) x
      in fsqrt (fdiv (sum_f64 L x2) (Num (real (length xs)))))"

text \<open>A list comprehension whose body may raise: it stops at the first exception.\<close>

fun collect :: "('a \<Rightarrow> error + 'b) \<Rightarrow> 'a list \<Rightarrow> error + 'b list" where
  "collect f [] = Inr []"
| "collect f (x # xs) =
     (case f x of
        Inl e \<Rightarrow> Inl e
      | Inr v \<Rightarrow> (case collect f xs of Inl e \<Rightarrow> Inl e | Inr vs \<Rightarrow> Inr (v # vs)))"

type_synonym sample = "double list \<times> int"

text \<open>
  The body of the loop over the predictors: the two averages for one predictor. The
  binary losses are Python ints; \<open>np.average\<close> adds them as doubles.
\<close>

definition predictor_losses :: "numpy \<Rightarrow> double list \<Rightarrow> sample list \<Rightarrow> error + (double \<times> double)" where
  "predictor_losses L W_hat test_dataset =
     (case collect (\<lambda>test_sample. logistic_loss L W_hat (fst test_sample) (snd test_sample))
             test_dataset of
        Inl e \<Rightarrow> Inl e
      | Inr logistic_loss_list \<Rightarrow>
     (let average_logistic_loss = np_average L logistic_loss_list in
     (case collect (\<lambda>test_sample. binary_loss_f64 L W_hat (fst test_sample) (snd test_sample))
             test_dataset of
        Inl e \<Rightarrow> Inl e
      | Inr binary_loss_list \<Rightarrow>
     (let average_binary_loss = np_average L (map (\<lambda>b. Num (real_of_int b)) binary_loss_list)
      in Inr (average_logistic_loss, average_binary_loss)))))"

text \<open>The loop over the predictors, appending to the two estimate lists.\<close>

fun losses_loop ::
  "numpy \<Rightarrow> double list list \<Rightarrow> sample list \<Rightarrow> double list \<Rightarrow> double list
     \<Rightarrow> error + (double list \<times> double list)"
where
  "losses_loop L [] test_dataset ll bl = Inr (ll, bl)"
| "losses_loop L (W_hat # rest) test_dataset ll bl =
     (case predictor_losses L W_hat test_dataset of
        Inl e \<Rightarrow> Inl e
      | Inr (al, ab) \<Rightarrow> losses_loop L rest test_dataset (ll @ [al]) (bl @ [ab]))"

definition computeLosses :: "numpy \<Rightarrow> double list list \<Rightarrow> sample list \<Rightarrow> error + double list" where
  "computeLosses L W_hat_list test_dataset =
     (case losses_loop L W_hat_list test_dataset [] [] of
        Inl e \<Rightarrow> Inl e
      | Inr (logistic_loss_estimate_list, binary_loss_estimate_list) \<Rightarrow>
     (case np_min logistic_loss_estimate_list of
        Inl e \<Rightarrow> Inl e
      | Inr min_risk \<Rightarrow>
     (let avg_risk = np_average L logistic_loss_estimate_list;
          std_risk = np_std L logistic_loss_estimate_list;
          avg_binary_err = np_average L binary_loss_estimate_list;
          std_binary_err = np_std L binary_loss_estimate_list
      in Inr [fsub avg_risk min_risk, std_risk, avg_binary_err, std_binary_err])))"

text \<open>The per-predictor averages and the minimum of a non-empty list, written directly.\<close>

definition avg_logistic :: "numpy \<Rightarrow> sample list \<Rightarrow> double list \<Rightarrow> double" where
  "avg_logistic L T W =
     np_average L (map (\<lambda>s. logistic_of_dot L (dot_f64 L W (fst s)) (snd s)) T)"

definition avg_binary :: "numpy \<Rightarrow> sample list \<Rightarrow> double list \<Rightarrow> double" where
  "avg_binary L T W =
     np_average L
       (map (\<lambda>s. Num (if fsign (dot_f64 L W (fst s)) \<noteq> Num (real_of_int (snd s)) then 1 else 0)) T)"

definition least :: "double list \<Rightarrow> double" where
  "least xs = fold (\<lambda>b a. fmin a b) (tl xs) (hd xs)"

definition shapes_agree :: "double list list \<Rightarrow> sample list \<Rightarrow> bool" where
  "shapes_agree Ws T = list_all (\<lambda>W. list_all (\<lambda>s. length W = length (fst s)) T) Ws"

fun magnitude_below :: "real \<Rightarrow> double \<Rightarrow> bool" where
  "magnitude_below B (Num a) = (\<bar>a\<bar> < B)"
| "magnitude_below B x = False"

section \<open>Properties of the projection\<close>

lemma fold_sq_acc:
  "fold (\<lambda>x acc. acc + x * x) v a = a + (\<Sum>x\<leftarrow>v. x * x)"
  by (induction v arbitrary: a) (simp_all add: add.assoc)

lemma norm_vec_sum: "norm_vec v = sqrt (\<Sum>x\<leftarrow>v. x * x)"
  by (simp add: norm_vec_def fold_sq_acc)

lemma sum_sq_nonneg: "0 \<le> (\<Sum>x\<leftarrow>v. x * x)" for v :: "real list"
  by (induction v) simp_all

lemma sum_sq_scaled:
  "(\<Sum>x\<leftarrow>map (\<lambda>x. x / c) v. x * x) = (\<Sum>x\<leftarrow>v. x * x) / (c * c)" for c :: real
  by (induction v) (simp_all add: add_divide_distrib)

lemma norm_vec_normalised:
  assumes "norm_vec v > 1"
  shows "norm_vec (map (\<lambda>x. x / norm_vec v) v) = 1"
proof -
  let ?s = "\<Sum>x\<leftarrow>v. x * x"
  have n: "norm_vec v = sqrt ?s" by (rule norm_vec_sum)
  have s0: "0 \<le> ?s" by (rule sum_sq_nonneg)
  have "sqrt ?s * sqrt ?s = ?s" using s0 by simp
  moreover have "sqrt ?s \<noteq> 0" using assms n by simp
  ultimately have one: "?s / (sqrt ?s * sqrt ?s) = 1" by simp
  have "norm_vec (map (\<lambda>x. x / sqrt ?s) v) = sqrt (?s / (sqrt ?s * sqrt ?s))"
    unfolding norm_vec_sum sum_sq_scaled ..
  then show ?thesis
    unfolding n one by simp
qed

lemma clamp_coord_range: "- 1 \<le> clamp_coord x \<and> clamp_coord x \<le> 1"
  by (simp add: clamp_coord_def)

lemma norm_vec_zero: "norm_vec (replicate n 0) = 0"
  by (simp add: norm_vec_sum sum_list_replicate)

text \<open>
  C10: for a scenario other than 1 and 2 both branches of \<open>project\<close> are skipped and the
  vector comes back unchanged; no branch of \<open>project\<close> can raise.
\<close>

theorem project_other_scenario_unchanged:
  "scenario \<noteq> 1 \<Longrightarrow> scenario \<noteq> 2 \<Longrightarrow> project scenario v = v"
  by (simp add: project_def)

theorem project_other_scenario_unchanged_witness:
  "(3::int) \<noteq> 1 \<and> (3::int) \<noteq> 2 \<and> project 3 [7, - 4, 1 / 2] = [7, - 4, 1 / 2]"
  using project_other_scenario_unchanged [of 3 "[7, - 4, 1 / 2]"] by simp

lemma project_hypercube_range:
  "x \<in> set (project 1 v) \<Longrightarrow> - 1 \<le> x \<and> x \<le> 1"
  using clamp_coord_range by (auto simp: project_def)

lemma project_ball_norm: "norm_vec (project 2 v) \<le> 1"
proof (cases "norm_vec v > 1")
  case True
  then have "norm_vec (map (\<lambda>x. x / norm_vec v) v) = 1"
    by (rule norm_vec_normalised)
  with True show ?thesis
    by (simp add: project_def Let_def)
next
  case False
  then show ?thesis
    by (simp add: project_def Let_def)
qed

lemma project_zero: "project scenario (replicate n 0) = replicate n 0"
  by (simp add: project_def Let_def norm_vec_zero clamp_coord_def)

text \<open>
  C4: under HYPERCUBE every coordinate of the projected vector lies in [-1, 1]; under
  BALL the norm of the projected vector is at most 1 (in exact arithmetic, so within any
  tolerance \<open>eps \<ge> 0\<close> of 1); the zero vector of any length is mapped to itself under
  both rules.
\<close>

theorem project_within_domain:
  "(\<forall>x \<in> set (project 1 v). - 1 \<le> x \<and> x \<le> 1)
   \<and> norm_vec (project 2 v) \<le> 1
   \<and> (\<forall>eps \<ge> 0. norm_vec (project 2 v) \<le> 1 + eps)
   \<and> project 1 (replicate n 0) = replicate n 0
   \<and> project 2 (replicate n 0) = replicate n 0"
proof -
  have ball: "norm_vec (project 2 v) \<le> 1" by (rule project_ball_norm)
  have "\<forall>eps \<ge> 0. norm_vec (project 2 v) \<le> 1 + eps"
  proof (intro allI impI)
    fix eps :: real
    assume "0 \<le> eps"
    with ball show "norm_vec (project 2 v) \<le> 1 + eps" by linarith
  qed
  with ball show ?thesis
    using project_hypercube_range [of _ v] project_zero [of 1 n] project_zero [of 2 n]
    by blast
qed

theorem project_within_domain_witness:
  "set (project 1 [3, - 2, 1 / 2]) = {1, - 1, 1 / 2} \<and> (0::real) \<le> 1 / 100
   \<and> - 1 \<le> project 1 [3, - 2, 1 / 2] ! 0 \<and> project 1 [3, - 2, 1 / 2] ! 0 \<le> 1
   \<and> - 1 \<le> project 1 [3, - 2, 1 / 2] ! 1 \<and> project 1 [3, - 2, 1 / 2] ! 1 \<le> 1
   \<and> norm_vec (project 2 [3, 4]) \<le> 1 + 1 / 100
   \<and> project 1 (replicate 6 0) = replicate 6 0
   \<and> project 2 (replicate 6 0) = replicate 6 0"
  using project_within_domain [of "[3, - 2, 1 / 2]" 6] project_within_domain [of "[3, 4]" 6]
  by (simp add: project_def clamp_coord_def)

section \<open>Properties of the binary loss\<close>

text \<open>
  C5: for a label in {-1, +1} and a weight vector as long as the input, \<open>binary_loss\<close>
  returns 0 or 1 and nothing else; it is 1 exactly when the sign of the dot product
  differs from the label, and a dot product of exactly 0 gives 1 for both labels.
\<close>

theorem binary_loss_zero_or_one:
  assumes "length w = length x" and "y = 1 \<or> y = - 1"
  shows "\<exists>b. binary_loss w x y = Inr b \<and> (b = 0 \<or> b = 1)
           \<and> (b = 1 \<longleftrightarrow> sgn (dot w x) \<noteq> real_of_int y)
           \<and> (dot w x = 0 \<longrightarrow> b = 1)"
  using assms by (auto simp: binary_loss_def np_dot_def)

theorem binary_loss_zero_or_one_witness:
  "length [1, - 1 :: real] = length [2, 2 :: real] \<and> ((1::int) = 1 \<or> (1::int) = - 1)
   \<and> dot [1, - 1] [2, 2] = 0
   \<and> (\<exists>b. binary_loss [1, - 1] [2, 2] 1 = Inr b \<and> (b = 0 \<or> b = 1)
           \<and> (b = 1 \<longleftrightarrow> sgn (dot [1, - 1] [2, 2]) \<noteq> real_of_int 1)
           \<and> (dot [1, - 1] [2, 2] = 0 \<longrightarrow> b = 1))"
  using binary_loss_zero_or_one [of "[1, - 1]" "[2, 2]" 1] by (simp add: dot_def)

section \<open>Properties of the trainer\<close>

lemma gauss_list_length: "length (fst (gauss_list R mu sigma n st)) = n"
proof (induction n arbitrary: st)
  case 0
  then show ?case by simp
next
  case (Suc n)
  obtain g st1 where a: "gauss R mu sigma st = (g, st1)" by (cases "gauss R mu sigma st")
  obtain gs st2 where b: "gauss_list R mu sigma n st1 = (gs, st2)"
    by (cases "gauss_list R mu sigma n st1")
  from Suc [of st1] b have "length gs = n" by simp
  then show ?case by (simp add: a b)
qed

lemma project_length: "length (project scenario v) = length v"
  by (simp add: project_def Let_def)

lemma get_Sample_Point_length:
  "length (fst (fst (get_Sample_Point R scenario sigma st))) = inputDimension + 1"
proof -
  obtain first st1 where p: "pick_first R st = (first, st1)" by (cases "pick_first R st")
  show ?thesis
  proof (cases first)
    case True
    obtain u st2 where g: "gauss_list R negativeCenter sigma inputDimension st1 = (u, st2)"
      by (cases "gauss_list R negativeCenter sigma inputDimension st1")
    have "length u = inputDimension"
      using gauss_list_length [of R negativeCenter sigma inputDimension st1] g by simp
    then show ?thesis
      using True by (simp add: get_Sample_Point_def p g project_length)
  next
    case False
    obtain u st2 where g: "gauss_list R positiveCenter sigma inputDimension st1 = (u, st2)"
      by (cases "gauss_list R positiveCenter sigma inputDimension st1")
    have "length u = inputDimension"
      using gauss_list_length [of R positiveCenter sigma inputDimension st1] g by simp
    then show ?thesis
      using False by (simp add: get_Sample_Point_def p g project_length)
  qed
qed

lemma sgd_update_ok:
  assumes "length W = inputDimension + 1"
  shows "\<exists>W'. sgd_update R scenario sigma lr W st
                 = Inr (W', snd (get_Sample_Point R scenario sigma st))
               \<and> length W' = inputDimension + 1"
proof -
  obtain X y st1 where s: "get_Sample_Point R scenario sigma st = ((X, y), st1)"
    by (cases "get_Sample_Point R scenario sigma st") auto
  have "length X = inputDimension + 1"
    using get_Sample_Point_length [of R scenario sigma st] s by simp
  with assms show ?thesis
    by (simp add: sgd_update_def s logistic_loss_gradient_def np_dot_def project_length)
qed

lemma sgd_loop_ok:
  assumes "length W = inputDimension + 1"
  shows "\<exists>new. sgd_loop k R scenario sigma lr W W_list st
                 = Inr (W_list @ new, rng_after k R scenario sigma st)
           \<and> length new = k
           \<and> list_all (\<lambda>V. length V = inputDimension + 1) new
           \<and> (\<forall>i<k. sgd_update R scenario sigma lr ((W # new) ! i) (rng_after i R scenario sigma st)
                      = Inr (new ! i, rng_after (Suc i) R scenario sigma st))"
  using assms
proof (induction k arbitrary: W W_list st)
  case 0
  then show ?case by simp
next
  case (Suc k)
  let ?st1 = "snd (get_Sample_Point R scenario sigma st)"
  from sgd_update_ok [OF Suc.prems, of R scenario sigma lr st]
  obtain W' where u: "sgd_update R scenario sigma lr W st = Inr (W', ?st1)"
    and l: "length W' = inputDimension + 1" by blast
  from Suc.IH [OF l, of "W_list @ [W']" ?st1]
  obtain new where run: "sgd_loop k R scenario sigma lr W' (W_list @ [W']) ?st1
                           = Inr ((W_list @ [W']) @ new, rng_after k R scenario sigma ?st1)"
    and len: "length new = k"
    and shp: "list_all (\<lambda>V. length V = inputDimension + 1) new"
    and stp: "\<forall>i<k. sgd_update R scenario sigma lr ((W' # new) ! i)
                        (rng_after i R scenario sigma ?st1)
                      = Inr (new ! i, rng_after (Suc i) R scenario sigma ?st1)"
    by blast
  have steps: "\<forall>i<Suc k. sgd_update R scenario sigma lr ((W # W' # new) ! i)
                            (rng_after i R scenario sigma st)
                          = Inr ((W' # new) ! i, rng_after (Suc i) R scenario sigma st)"
  proof (intro allI impI)
    fix i assume i: "i < Suc k"
    show "sgd_update R scenario sigma lr ((W # W' # new) ! i) (rng_after i R scenario sigma st)
            = Inr ((W' # new) ! i, rng_after (Suc i) R scenario sigma st)"
    proof (cases i)
      case 0
      then show ?thesis using u by simp
    next
      case (Suc j)
      with i have "j < k" by simp
      with stp Suc show ?thesis by simp
    qed
  qed
  have "sgd_loop (Suc k) R scenario sigma lr W W_list st
          = Inr (W_list @ (W' # new), rng_after (Suc k) R scenario sigma st)"
    using u run by simp
  moreover have "length (W' # new) = Suc k" using len by simp
  moreover have "list_all (\<lambda>V. length V = inputDimension + 1) (W' # new)"
    using l shp by simp
  ultimately show ?case using steps by blast
qed

lemma sgd_trajectory_ok:
  "\<exists>new. sgd_trajectory R N scenario sigma st
            = Inr (replicate (inputDimension + 1) 0 # new,
                   rng_after (nat (N - 1)) R scenario sigma st)
         \<and> length new = nat (N - 1)
         \<and> list_all (\<lambda>V. length V = inputDimension + 1) new
         \<and> (\<forall>i<nat (N - 1).
               sgd_update R scenario sigma (learning_rate N scenario)
                 ((replicate (inputDimension + 1) 0 # new) ! i) (rng_after i R scenario sigma st)
               = Inr (new ! i, rng_after (Suc i) R scenario sigma st))"
proof -
  have l: "length (replicate (inputDimension + 1) (0::real)) = inputDimension + 1" by simp
  show ?thesis
    using sgd_loop_ok [OF l, of "nat (N - 1)" R scenario sigma "learning_rate N scenario"
        "[replicate (inputDimension + 1) 0]" st]
    by (simp add: sgd_trajectory_def Let_def)
qed

lemma np_average_axis0_ok:
  assumes "rows \<noteq> []" and "list_all (\<lambda>V. length V = d) rows"
  shows "np_average_axis0 rows
           = Inr (map (\<lambda>j. sum_list (map (\<lambda>row. row ! j) rows) / real (length rows)) [0 ..< d])"
proof -
  obtain first rest where r: "rows = first # rest"
    using assms(1) by (cases rows) auto
  have h: "length first = d"
    using assms(2) r by simp
  have "list_all (\<lambda>row. length row = length first) rows"
    using assms(2) h by simp
  then show ?thesis
    unfolding np_average_axis0_def r list.case h by (simp add: h)
qed

lemma learning_rate_value:
  "learning_rate N scenario = 2 / sqrt (real_of_int N)"
proof -
  have "sgd_M scenario \<noteq> 0"
    by (simp add: sgd_M_def)
  then show ?thesis
    by (simp add: learning_rate_def Let_def)
qed

text \<open>
  C1: for an iteration count \<open>N \<ge> 1\<close> the trainer finishes with a trajectory of exactly
  \<open>N\<close> weight vectors of dimension D+1, the first of which is the zero vector and each
  further one the result of one update step on its predecessor, and returns the vector
  whose every coordinate is the sum of that coordinate over all \<open>N\<close> entries, the initial
  zero vector included, divided by \<open>N\<close>.
\<close>

theorem sgd_returns_trajectory_average:
  assumes "1 \<le> N"
  shows "\<exists>W_list W st'.
           sgd_trajectory R N scenario sigma st = Inr (W_list, st')
         \<and> length W_list = nat N
         \<and> W_list ! 0 = replicate (inputDimension + 1) 0
         \<and> list_all (\<lambda>V. length V = inputDimension + 1) W_list
         \<and> (\<forall>i. Suc i < nat N \<longrightarrow>
               sgd_update R scenario sigma (learning_rate N scenario)
                 (W_list ! i) (rng_after i R scenario sigma st)
               = Inr (W_list ! Suc i, rng_after (Suc i) R scenario sigma st))
         \<and> sgd R N scenario sigma st = Inr (W, st')
         \<and> length W = inputDimension + 1
         \<and> (\<forall>j < inputDimension + 1.
               W ! j = sum_list (map (\<lambda>V. V ! j) W_list) / real_of_int N)"
proof -
  let ?z = "replicate (inputDimension + 1) (0::real)"
  let ?st' = "rng_after (nat (N - 1)) R scenario sigma st"
  from sgd_trajectory_ok [of R N scenario sigma st]
  obtain new where run: "sgd_trajectory R N scenario sigma st = Inr (?z # new, ?st')"
    and len: "length new = nat (N - 1)"
    and shp: "list_all (\<lambda>V. length V = inputDimension + 1) new"
    and stp: "\<forall>i<nat (N - 1).
               sgd_update R scenario sigma (learning_rate N scenario)
                 ((?z # new) ! i) (rng_after i R scenario sigma st)
               = Inr (new ! i, rng_after (Suc i) R scenario sigma st)"
    by blast
  let ?Ws = "?z # new"
  let ?W = "map (\<lambda>j. sum_list (map (\<lambda>row. row ! j) ?Ws) / real (length ?Ws))
                [0 ..< inputDimension + 1]"
  have n: "length ?Ws = nat N" using len assms by simp
  have rn: "real (length ?Ws) = real_of_int N" using n assms by simp
  have shp': "list_all (\<lambda>V. length V = inputDimension + 1) ?Ws" using shp by simp
  have avg: "np_average_axis0 ?Ws = Inr ?W"
    by (rule np_average_axis0_ok [OF _ shp']) simp
  have res: "sgd R N scenario sigma st = Inr (?W, ?st')"
    by (simp only: sgd_def run avg sum.case prod.case)
  have steps: "\<forall>i. Suc i < nat N \<longrightarrow>
               sgd_update R scenario sigma (learning_rate N scenario)
                 (?Ws ! i) (rng_after i R scenario sigma st)
               = Inr (?Ws ! Suc i, rng_after (Suc i) R scenario sigma st)"
  proof (intro allI impI)
    fix i assume "Suc i < nat N"
    then have "i < nat (N - 1)" by linarith
    with stp show "sgd_update R scenario sigma (learning_rate N scenario)
                 (?Ws ! i) (rng_after i R scenario sigma st)
               = Inr (?Ws ! Suc i, rng_after (Suc i) R scenario sigma st)"
      by simp
  qed
  have coords: "\<forall>j < inputDimension + 1.
               ?W ! j = sum_list (map (\<lambda>V. V ! j) ?Ws) / real_of_int N"
  proof (intro allI impI)
    fix j assume j: "j < inputDimension + 1"
    have "?W ! j = sum_list (map (\<lambda>row. row ! j) ?Ws) / real (length ?Ws)"
      using j by (simp only: nth_map_upt add_0 length_upt diff_zero)
    then show "?W ! j = sum_list (map (\<lambda>V. V ! j) ?Ws) / real_of_int N"
      by (simp only: rn)
  qed
  have lw: "length ?W = inputDimension + 1" by simp
  have z: "?Ws ! 0 = ?z" by simp
  from run n z shp' steps res lw coords show ?thesis by blast
qed

theorem sgd_returns_trajectory_average_witness:
  "(1::int) \<le> 3
   \<and> (\<exists>W_list W st'.
           sgd_trajectory counter_random 3 1 (1 / 20) 0 = Inr (W_list, st')
         \<and> length W_list = nat 3
         \<and> W_list ! 0 = replicate (inputDimension + 1) 0
         \<and> list_all (\<lambda>V. length V = inputDimension + 1) W_list
         \<and> (\<forall>i. Suc i < nat 3 \<longrightarrow>
               sgd_update counter_random 1 (1 / 20) (learning_rate 3 1)
                 (W_list ! i) (rng_after i counter_random 1 (1 / 20) 0)
               = Inr (W_list ! Suc i, rng_after (Suc i) counter_random 1 (1 / 20) 0))
         \<and> sgd counter_random 3 1 (1 / 20) 0 = Inr (W, st')
         \<and> length W = inputDimension + 1
         \<and> (\<forall>j < inputDimension + 1.
               W ! j = sum_list (map (\<lambda>V. V ! j) W_list) / real_of_int 3))"
  using sgd_returns_trajectory_average [of 3 counter_random 1 "1 / 20" 0]
  by simp

text \<open>
  C7: with one iteration the loop body never runs, whatever the scenario and sigma (BALL
  with sigma 0 in particular): the trajectory is the initial zero vector alone, the
  generator is untouched, and the returned predictor is the zero vector of dimension
  D+1 = 6.
\<close>

theorem sgd_single_iteration_zero:
  "sgd_trajectory R 1 scenario sigma st = Inr ([replicate (inputDimension + 1) 0], st)
   \<and> sgd R 1 scenario sigma st = Inr (replicate (inputDimension + 1) 0, st)
   \<and> sgd R 1 2 0 st = Inr ([0, 0, 0, 0, 0, 0], st)"
proof -
  have t: "sgd_trajectory R 1 sc sg st = Inr ([replicate (inputDimension + 1) 0], st)"
    for sc sg
    by (simp add: sgd_trajectory_def Let_def)
  have a: "np_average_axis0 [replicate (inputDimension + 1) 0]
             = Inr (replicate (inputDimension + 1) 0)"
    by (simp add: np_average_axis0_def inputDimension_def upt_rec numeral_eq_Suc)
  have s: "sgd R 1 sc sg st = Inr (replicate (inputDimension + 1) 0, st)" for sc sg
    by (simp only: sgd_def t a sum.case prod.case)
  have six: "replicate (inputDimension + 1) (0::real) = [0, 0, 0, 0, 0, 0]"
    by (simp add: inputDimension_def numeral_eq_Suc)
  show ?thesis
    using t [of scenario sigma] s [of scenario sigma] s [of 2 0] six by simp
qed

text \<open>
  C6: \<open>M\<close> is \<open>2 * sqrt (D + 1)\<close> under HYPERCUBE and 2 under BALL, the step size is
  \<open>M / (rho * sqrt iterations)\<close> with \<open>rho = M / 2\<close> (that is, \<open>2 / sqrt iterations\<close>), and
  every update step of a training run uses this one value: it is computed once from the
  iteration budget and does not change from one iteration to the next.
\<close>

theorem sgd_fixed_step_size:
  assumes "1 \<le> N"
  shows "sgd_M 1 = 2 * sqrt (real (inputDimension + 1)) \<and> sgd_M 2 = 2
         \<and> learning_rate N scenario
             = sgd_M scenario / ((sgd_M scenario / 2) * sqrt (real_of_int N))
         \<and> learning_rate N scenario = 2 / sqrt (real_of_int N)
         \<and> (\<exists>W_list st'.
               sgd_trajectory R N scenario sigma st = Inr (W_list, st')
             \<and> length W_list = nat N
             \<and> (\<forall>i. Suc i < nat N \<longrightarrow>
                   sgd_update R scenario sigma
                     (sgd_M scenario / ((sgd_M scenario / 2) * sqrt (real_of_int N)))
                     (W_list ! i) (rng_after i R scenario sigma st)
                   = Inr (W_list ! Suc i, rng_after (Suc i) R scenario sigma st)))"
proof -
  let ?z = "replicate (inputDimension + 1) (0::real)"
  have e: "sqrt (2 ^ 2 * real (inputDimension + 1)) = 2 * sqrt (real (inputDimension + 1))"
    by (simp only: real_sqrt_mult real_sqrt_abs abs_numeral)
  have m1: "sgd_M 1 = 2 * sqrt (real (inputDimension + 1))"
    by (simp only: sgd_M_def e if_True HOL.simp_thms)
  have m2: "sgd_M 2 = 2"
    by (simp add: sgd_M_def)
  have lr: "learning_rate N scenario
              = sgd_M scenario / ((sgd_M scenario / 2) * sqrt (real_of_int N))"
    by (simp add: learning_rate_def Let_def)
  from sgd_trajectory_ok [of R N scenario sigma st]
  obtain new where run: "sgd_trajectory R N scenario sigma st
                           = Inr (?z # new, rng_after (nat (N - 1)) R scenario sigma st)"
    and len: "length new = nat (N - 1)"
    and stp: "\<forall>i<nat (N - 1).
               sgd_update R scenario sigma (learning_rate N scenario)
                 ((?z # new) ! i) (rng_after i R scenario sigma st)
               = Inr (new ! i, rng_after (Suc i) R scenario sigma st)"
    by blast
  have n: "length (?z # new) = nat N" using len assms by simp
  have steps: "\<forall>i. Suc i < nat N \<longrightarrow>
               sgd_update R scenario sigma
                 (sgd_M scenario / ((sgd_M scenario / 2) * sqrt (real_of_int N)))
                 ((?z # new) ! i) (rng_after i R scenario sigma st)
               = Inr ((?z # new) ! Suc i, rng_after (Suc i) R scenario sigma st)"
  proof (intro allI impI)
    fix i assume "Suc i < nat N"
    then have "i < nat (N - 1)" by linarith
    with stp show "sgd_update R scenario sigma
                 (sgd_M scenario / ((sgd_M scenario / 2) * sqrt (real_of_int N)))
                 ((?z # new) ! i) (rng_after i R scenario sigma st)
               = Inr ((?z # new) ! Suc i, rng_after (Suc i) R scenario sigma st)"
      unfolding lr by simp
  qed
  from m1 m2 lr learning_rate_value [of N scenario] run n steps show ?thesis by blast
qed

theorem sgd_fixed_step_size_witness:
  "(1::int) \<le> 4
   \<and> learning_rate 4 2 = 1
   \<and> (\<exists>W_list st'.
               sgd_trajectory counter_random 4 2 0 0 = Inr (W_list, st')
             \<and> length W_list = nat 4
             \<and> (\<forall>i. Suc i < nat 4 \<longrightarrow>
                   sgd_update counter_random 2 0
                     (sgd_M 2 / ((sgd_M 2 / 2) * sqrt (real_of_int 4)))
                     (W_list ! i) (rng_after i counter_random 2 0 0)
                   = Inr (W_list ! Suc i, rng_after (Suc i) counter_random 2 0 0)))"
proof -
  have "sqrt (real_of_int 4) = 2"
    using real_sqrt_abs [of 2] by simp
  then show ?thesis
    using sgd_fixed_step_size [of 4 2 counter_random 0 0] by (simp add: sgd_M_def)
qed

section \<open>Properties of rounding\<close>

lemma round_half_even_eq:
  assumes "\<bar>t - real_of_int n\<bar> < 1 / 2"
  shows "round_half_even t = n"
proof (cases "real_of_int n \<le> t")
  case True
  with assms have "\<lfloor>t\<rfloor> = n" unfolding floor_eq_iff by linarith
  with assms True show ?thesis by (simp add: round_half_even_def Let_def)
next
  case False
  with assms have f: "\<lfloor>t\<rfloor> = n - 1" unfolding floor_eq_iff of_int_diff of_int_1 by linarith
  have "t - real_of_int (n - 1) > 1 / 2" using assms False unfolding of_int_diff of_int_1 by linarith
  then show ?thesis using f by (simp add: round_half_even_def Let_def)
qed

lemma round_half_even_int [simp]: "round_half_even (real_of_int n) = n"
  by (rule round_half_even_eq) simp

lemma round_half_even_close: "\<bar>real_of_int (round_half_even t) - t\<bar> \<le> 1 / 2"
proof -
  have "real_of_int \<lfloor>t\<rfloor> \<le> t" "t < real_of_int \<lfloor>t\<rfloor> + 1" by linarith+
  then show ?thesis
    by (auto simp: round_half_even_def Let_def)
qed

lemma round_half_even_bound:
  assumes "\<bar>t\<bar> < real_of_int N"
  shows "\<bar>round_half_even t\<bar> \<le> N"
proof -
  have "\<bar>real_of_int (round_half_even t)\<bar> < real_of_int N + 1"
    using round_half_even_close [of t] assms by linarith
  then have "\<bar>round_half_even t\<bar> < N + 1"
    by (metis of_int_1 of_int_abs of_int_add of_int_less_iff)
  then show ?thesis by simp
qed

lemma round_half_even_nonneg: "0 \<le> t \<Longrightarrow> 0 \<le> round_half_even t"
  by (auto simp: round_half_even_def Let_def)

lemma ulp_pos: "0 < ulp x"
  by (simp add: ulp_def)

lemma binade_ge: "- 1022 \<le> binade x"
  by (simp add: binade_def)

lemma binade_eq:
  assumes "- 1022 \<le> k" and "2 powr real_of_int k \<le> \<bar>x\<bar>" and "\<bar>x\<bar> < 2 powr (real_of_int k + 1)"
  shows "binade x = k"
proof -
  have "0 < \<bar>x\<bar>" using assms(2) powr_gt_zero [of 2 "real_of_int k"] by linarith
  then have "\<lfloor>log 2 \<bar>x\<bar>\<rfloor> = k"
    using assms(2,3) by (subst floor_log_eq_powr_iff) simp_all
  then show ?thesis using assms(1) by (simp add: binade_def)
qed

lemma abs_less_next_binade:
  "\<bar>x\<bar> < 2 powr (real_of_int (binade x) + 1)"
proof (cases "x = 0")
  case True
  then show ?thesis by simp
next
  case False
  then have p: "0 < \<bar>x\<bar>" by simp
  have "\<bar>x\<bar> < 2 powr (real_of_int \<lfloor>log 2 \<bar>x\<bar>\<rfloor> + 1)"
    using floor_log_eq_powr_iff [of "\<bar>x\<bar>" 2 "\<lfloor>log 2 \<bar>x\<bar>\<rfloor>"] p by simp
  also have "\<dots> \<le> 2 powr (real_of_int (binade x) + 1)"
    by (simp add: binade_def)
  finally show ?thesis .
qed


lemma two_powr_shift: "2 ^ 53 * 2 powr (a - 52) = 2 powr (a + 1)" for a :: real
proof -
  have "(2::real) powr (a + 1) = 2 powr (53 + (a - 52))"
    by (rule arg_cong [where f = "(powr) 2"]) simp
  also have "\<dots> = 2 powr 53 * 2 powr (a - 52)" by (rule powr_add)
  also have "(2::real) powr 53 = 2 ^ 53" by simp
  finally show ?thesis by simp
qed

lemma nearest_zero [simp]: "nearest 0 = 0"
  by (simp add: nearest_def round_half_even_def)

lemma nearest_of_integral:
  assumes "y / ulp y = real_of_int j"
  shows "nearest y = y"
proof -
  have "nearest y = real_of_int j * ulp y"
    by (simp add: nearest_def assms)
  also have "\<dots> = y"
    using assms ulp_pos [of y] by (simp add: field_simps)
  finally show ?thesis .
qed

lemma nearest_fixed:
  assumes y: "y = real_of_int n * 2 powr (real_of_int k - 52)"
    and n: "\<bar>n\<bar> \<le> 2 ^ 53" and k: "- 1022 \<le> k"
  shows "nearest y = y"
proof (cases "y = 0")
  case True
  then show ?thesis by simp
next
  case False
  let ?k' = "binade y"
  show ?thesis
  proof (cases "?k' \<le> k")
    case True
    then obtain d :: nat where d: "k = ?k' + int d"
      by (metis nonneg_int_cases diff_ge_0_iff_ge add_diff_cancel_left' add.commute diff_add_cancel)
    have "y / ulp y = real_of_int n * (2 powr (real_of_int k - 52) / 2 powr (real_of_int ?k' - 52))"
      by (simp add: y ulp_def)
    also have "2 powr (real_of_int k - 52) / 2 powr (real_of_int ?k' - 52) = 2 powr (real d)"
      by (simp add: powr_diff [symmetric] d)
    also have "\<dots> = 2 ^ d"
      by (simp add: powr_realpow)
    finally have "y / ulp y = real_of_int (n * 2 ^ d)" by simp
    then show ?thesis by (rule nearest_of_integral)
  next
    case gt: False
    then have "?k' > - 1022" using k by linarith
    then have fl: "?k' = \<lfloor>log 2 \<bar>y\<bar>\<rfloor>"
      by (simp add: binade_def max_def split: if_splits)
    have ypos: "0 < \<bar>y\<bar>" using False by simp
    have lo: "2 powr real_of_int ?k' \<le> \<bar>y\<bar>"
      using floor_log_eq_powr_iff [of "\<bar>y\<bar>" 2 ?k'] ypos fl by simp
    have ay: "\<bar>y\<bar> = real_of_int \<bar>n\<bar> * 2 powr (real_of_int k - 52)"
      by (simp add: y abs_mult)
    have "real_of_int \<bar>n\<bar> \<le> 2 ^ 53" using n by (metis of_int_le_iff of_int_numeral of_int_power)
    then have "\<bar>y\<bar> \<le> 2 ^ 53 * 2 powr (real_of_int k - 52)"
      unfolding ay by (intro mult_right_mono) simp_all
    also have "(2::real) ^ 53 * 2 powr (real_of_int k - 52) = 2 powr (real_of_int k + 1)"
      by (rule two_powr_shift)
    finally have hi: "\<bar>y\<bar> \<le> 2 powr (real_of_int k + 1)" .
    from lo hi have "2 powr real_of_int ?k' \<le> 2 powr (real_of_int k + 1)" by linarith
    then have "real_of_int ?k' \<le> real_of_int k + 1" by simp
    then have k': "?k' = k + 1" using gt by linarith
    from lo hi have "\<bar>y\<bar> = 2 powr (real_of_int k + 1)" by (simp add: k')
    then have "real_of_int \<bar>n\<bar> * 2 powr (real_of_int k - 52) = 2 ^ 53 * 2 powr (real_of_int k - 52)"
      using ay \<open>(2::real) ^ 53 * 2 powr (real_of_int k - 52) = 2 powr (real_of_int k + 1)\<close>
      by simp
    then have nn: "real_of_int \<bar>n\<bar> = 2 ^ 53" by simp
    have uy: "ulp y = 2 powr (real_of_int k + 1 - 52)"
      by (simp add: ulp_def k')
    have "y / ulp y = real_of_int n * (2 powr (real_of_int k - 52) / 2 powr (real_of_int k + 1 - 52))"
      unfolding uy by (simp add: y)
    also have "2 powr (real_of_int k - 52) / 2 powr (real_of_int k + 1 - 52) = 2 powr (- 1)"
      by (simp add: powr_diff [symmetric])
    also have "\<dots> = 1 / 2" by (simp add: powr_minus_divide)
    finally have q: "y / ulp y = real_of_int n / 2" by simp
    have "\<bar>n\<bar> = 2 ^ 53" using nn by (metis of_int_eq_iff of_int_numeral of_int_power)
    then have "n = 2 ^ 53 \<or> n = - (2 ^ 53)" by linarith
    then have "real_of_int n / 2 = real_of_int (n div 2)" by auto
    with q show ?thesis by (intro nearest_of_integral) simp
  qed
qed

lemma nearest_form:
  "\<exists>n. nearest x = real_of_int n * 2 powr (real_of_int (binade x) - 52) \<and> \<bar>n\<bar> \<le> 2 ^ 53"
proof -
  let ?n = "round_half_even (x / ulp x)"
  have "\<bar>x\<bar> < 2 powr (real_of_int (binade x) + 1)" by (rule abs_less_next_binade)
  also have "\<dots> = 2 ^ 53 * ulp x"
    unfolding ulp_def by (rule two_powr_shift [symmetric])
  finally have "\<bar>x / ulp x\<bar> < 2 ^ 53"
    using ulp_pos [of x] by (simp add: field_simps abs_mult)
  then have "\<bar>x / ulp x\<bar> < real_of_int (2 ^ 53)" by simp
  then have "\<bar>?n\<bar> \<le> 2 ^ 53" by (rule round_half_even_bound)
  then show ?thesis by (auto simp: nearest_def ulp_def)
qed

lemma nearest_idem: "nearest (nearest x) = nearest x"
proof -
  obtain n where "nearest x = real_of_int n * 2 powr (real_of_int (binade x) - 52)"
    and "\<bar>n\<bar> \<le> 2 ^ 53"
    using nearest_form [of x] by blast
  then show ?thesis by (rule nearest_fixed) (rule binade_ge)
qed

lemma rnd_idem: "rnd x = Num y \<Longrightarrow> rnd y = Num y"
  by (auto simp: rnd_def nearest_idem split: if_splits)

lemma rnd_zero [simp]: "rnd 0 = Num 0"
  by (simp add: rnd_def)

lemma nearest_nonneg: "0 \<le> x \<Longrightarrow> 0 \<le> nearest x"
  using ulp_pos [of x] round_half_even_nonneg [of "x / ulp x"]
  by (simp add: nearest_def)

lemma round_half_even_tie:
  assumes "t = real_of_int f + 1 / 2"
  shows "round_half_even t = (if even f then f else f + 1)"
proof -
  have "\<lfloor>t\<rfloor> = f" unfolding floor_eq_iff assms by linarith
  then show ?thesis by (simp add: round_half_even_def Let_def assms)
qed

lemma rnd_eval_gen:
  assumes m: "m \<le> 1074"
    and lo: "2 ^ 52 \<le> \<bar>x\<bar> * 2 ^ m" and hi: "\<bar>x\<bar> * 2 ^ m < 2 ^ 53"
    and n: "round_half_even (x * 2 ^ m) = n"
  shows "rnd x = Num (real_of_int n / 2 ^ m)"
proof -
  let ?k = "52 - int m"
  have e: "real_of_int ?k = 52 - real m" by simp
  have e1: "real_of_int ?k + 1 = 53 - real m" by simp
  have pk: "2 powr (52 - real m) = 2 ^ 52 / 2 ^ m"
    by (simp add: powr_diff powr_realpow)
  have pk1: "2 powr (53 - real m) = 2 ^ 53 / 2 ^ m"
    by (simp add: powr_diff powr_realpow)
  have b: "binade x = ?k"
  proof (rule binade_eq)
    show "- 1022 \<le> ?k" using m by simp
    show "2 powr real_of_int ?k \<le> \<bar>x\<bar>"
      unfolding e pk using lo by (simp add: field_simps)
    show "\<bar>x\<bar> < 2 powr (real_of_int ?k + 1)"
      unfolding e1 pk1 using hi by (simp add: field_simps)
  qed
  have u: "ulp x = 1 / 2 ^ m"
    by (simp add: ulp_def b powr_minus_divide powr_realpow)
  have xu: "x / ulp x = x * 2 ^ m" by (simp add: u)
  have near: "nearest x = real_of_int n / 2 ^ m"
    unfolding nearest_def xu n by (simp add: u)
  have ax: "\<bar>x * 2 ^ m\<bar> = \<bar>x\<bar> * 2 ^ m" by (simp add: abs_mult)
  have "\<bar>real_of_int n - x * 2 ^ m\<bar> \<le> 1 / 2"
    using round_half_even_close [of "x * 2 ^ m"] n by simp
  then have "\<bar>real_of_int n\<bar> < 2 ^ 53 + 1" using hi ax by linarith
  moreover have "\<bar>real_of_int n / 2 ^ m\<bar> \<le> \<bar>real_of_int n\<bar>"
    by (simp add: abs_divide field_simps mult_le_cancel_left1 abs_ge_zero)
  moreover have "(2::real) ^ 53 + 1 < 2 ^ 1024" by simp
  ultimately have "\<bar>nearest x\<bar> < 2 ^ 1024" unfolding near by linarith
  then show ?thesis by (simp add: rnd_def near)
qed

lemma rnd_eval:
  assumes "m \<le> 1074"
    and "2 ^ 52 \<le> \<bar>x\<bar> * 2 ^ m" and "\<bar>x\<bar> * 2 ^ m < 2 ^ 53"
    and "\<bar>x * 2 ^ m - real_of_int n\<bar> < 1 / 2"
  shows "rnd x = Num (real_of_int n / 2 ^ m)"
  using assms(1-3) round_half_even_eq [OF assms(4)] by (rule rnd_eval_gen)

lemma rnd_eval_tie:
  assumes "m \<le> 1074"
    and "2 ^ 52 \<le> \<bar>x\<bar> * 2 ^ m" and "\<bar>x\<bar> * 2 ^ m < 2 ^ 53"
    and "x * 2 ^ m = real_of_int f + 1 / 2"
  shows "rnd x = Num (real_of_int (if even f then f else f + 1) / 2 ^ m)"
  using assms(1-3) round_half_even_tie [OF assms(4)] by (rule rnd_eval_gen)

lemma real_int_le: "a \<le> b \<Longrightarrow> real_of_int a \<le> real_of_int b"
  by simp


text \<open>Integers up to \<open>2^53\<close> in magnitude are doubles.\<close>

lemma rnd_int:
  assumes "\<bar>i\<bar> \<le> 2 ^ 53"
  shows "rnd (real_of_int i) = Num (real_of_int i)"
proof -
  have "real_of_int i = real_of_int i * 2 powr (real_of_int 52 - 52)" by simp
  then have n: "nearest (real_of_int i) = real_of_int i"
    using assms by (rule nearest_fixed) simp
  have "real_of_int \<bar>i\<bar> \<le> 2 ^ 53" using real_int_le [OF assms] by simp
  moreover have "(2::real) ^ 53 < 2 ^ 1024" by simp
  ultimately have "\<bar>real_of_int i\<bar> < 2 ^ 1024" by simp
  then show ?thesis by (simp add: rnd_def n)
qed

section \<open>Projection in double precision\<close>



































section \<open>Properties of the risk estimator in double precision\<close>

lemma round_half_even_le:
  assumes "t \<le> real_of_int N"
  shows "round_half_even t \<le> N"
proof (cases "t = real_of_int N")
  case True
  then show ?thesis by simp
next
  case False
  with assms have "t < real_of_int N" by simp
  then have "\<lfloor>t\<rfloor> < N" by (simp add: floor_less_iff)
  then show ?thesis by (auto simp: round_half_even_def Let_def)
qed

lemma floor_le_round_half_even: "\<lfloor>t\<rfloor> \<le> round_half_even t"
  by (auto simp: round_half_even_def Let_def)


lemma rnd_unit:
  assumes "0 \<le> x" and "x \<le> 1"
  shows "\<exists>c. rnd x = Num c \<and> 0 \<le> c \<and> c \<le> 1"
proof (cases "x = 0")
  case True
  then show ?thesis by simp
next
  case False
  with assms have "0 < x" by simp
  then have "log 2 x \<le> 0" using assms(2) by simp
  then have "\<lfloor>log 2 \<bar>x\<bar>\<rfloor> \<le> 0" using assms(1) by (simp add: floor_le_iff)
  then have k: "binade x \<le> 0" by (simp add: binade_def)
  then obtain d :: nat where d: "52 - binade x = int d"
    by (metis nonneg_int_cases diff_ge_0_iff_ge order_trans zero_le_numeral)
  have "real_of_int (binade x) - 52 = - real d"
    using d by linarith
  then have u: "ulp x = 1 / 2 ^ d"
    by (simp add: ulp_def powr_minus_divide powr_realpow)
  have "x / ulp x \<le> real_of_int (2 ^ d)"
    using assms(2) by (simp add: u)
  then have "round_half_even (x / ulp x) \<le> 2 ^ d" by (rule round_half_even_le)
  from real_int_le [OF this]
  have "real_of_int (round_half_even (x / ulp x)) \<le> 2 ^ d" by simp
  then have le1: "nearest x \<le> 1"
    by (simp add: nearest_def u field_simps)
  have ge0: "0 \<le> nearest x" using assms(1) by (rule nearest_nonneg)
  have "\<bar>nearest x\<bar> < 2 ^ 1024" using le1 ge0 by simp
  then have "rnd x = Num (nearest x)" by (simp add: rnd_def)
  with ge0 le1 show ?thesis by blast
qed

lemma rnd_fixed_nearest: "rnd a = Num a \<Longrightarrow> nearest a = a"
  by (simp add: rnd_def split: if_splits)

lemma rnd_double:
  assumes "rnd a = Num a" and "\<bar>a\<bar> < 2 ^ 1023"
  shows "rnd (2 * a) = Num (2 * a)"
proof -
  have na: "nearest a = a" using assms(1) by (rule rnd_fixed_nearest)
  obtain n where n: "a = real_of_int n * 2 powr (real_of_int (binade a) - 52)"
    and b: "\<bar>n\<bar> \<le> 2 ^ 53"
    using nearest_form [of a] na by auto
  have "2 * a = real_of_int n * (2 powr 1 * 2 powr (real_of_int (binade a) - 52))"
    by (subst n) simp
  also have "2 powr 1 * 2 powr (real_of_int (binade a) - 52)
               = 2 powr (real_of_int (binade a + 1) - 52)"
  proof -
    have "(2::real) powr (real_of_int (binade a + 1) - 52)
            = 2 powr (1 + (real_of_int (binade a) - 52))"
      by (rule arg_cong [where f = "(powr) 2"]) simp
    also have "\<dots> = 2 powr 1 * 2 powr (real_of_int (binade a) - 52)" by (rule powr_add)
    finally show ?thesis by (rule sym)
  qed
  finally have "nearest (2 * a) = 2 * a"
    using b by (rule nearest_fixed) (use binade_ge [of a] in simp)
  moreover have "\<bar>2 * a\<bar> < 2 ^ 1024" using assms(2) by simp
  ultimately show ?thesis by (simp add: rnd_def)
qed

lemma rnd_overflow:
  assumes "2 ^ 1024 \<le> x"
  shows "rnd x = PosInf"
proof -
  have xpos: "0 < x" using assms by (rule less_le_trans [rotated]) simp
  have "2 powr 1024 \<le> x" using assms by simp
  then have "1024 \<le> log 2 x" using xpos by (simp add: le_log_iff)
  then have f: "1024 \<le> \<lfloor>log 2 \<bar>x\<bar>\<rfloor>" using xpos by (simp add: le_floor_iff)
  then have k: "binade x = \<lfloor>log 2 \<bar>x\<bar>\<rfloor>" by (simp add: binade_def)
  have lo: "2 powr real_of_int (binade x) \<le> x"
    using floor_log_eq_powr_iff [of "\<bar>x\<bar>" 2 "\<lfloor>log 2 \<bar>x\<bar>\<rfloor>"] xpos k by simp
  have "2 ^ 52 * ulp x = 2 powr real_of_int (binade x)"
  proof -
    have "(2::real) powr real_of_int (binade x) = 2 powr (52 + (real_of_int (binade x) - 52))"
      by (rule arg_cong [where f = "(powr) 2"]) simp
    also have "\<dots> = 2 powr 52 * 2 powr (real_of_int (binade x) - 52)" by (rule powr_add)
    finally show ?thesis by (simp add: ulp_def)
  qed
  with lo have "2 ^ 52 * ulp x \<le> x" by simp
  then have "2 ^ 52 \<le> x / ulp x" using ulp_pos [of x] by (simp add: field_simps)
  then have "real_of_int (2 ^ 52) \<le> x / ulp x" by simp
  then have "2 ^ 52 \<le> \<lfloor>x / ulp x\<rfloor>" by (simp only: le_floor_iff)
  then have "2 ^ 52 \<le> round_half_even (x / ulp x)"
    using floor_le_round_half_even [of "x / ulp x"] by linarith
  then have "real_of_int (2 ^ 52) \<le> real_of_int (round_half_even (x / ulp x))"
    by (rule real_int_le)
  then have "2 ^ 52 * ulp x \<le> nearest x"
    using ulp_pos [of x] by (simp add: nearest_def)
  then have "2 powr real_of_int (binade x) \<le> nearest x"
    using \<open>2 ^ 52 * ulp x = 2 powr real_of_int (binade x)\<close> by simp
  moreover have "(2::real) powr real_of_int 1024 \<le> 2 powr real_of_int (binade x)"
  proof (rule powr_mono)
    have "1024 \<le> binade x" using f k by simp
    then show "real_of_int 1024 \<le> real_of_int (binade x)" by (rule real_int_le)
  qed simp
  moreover have "(2::real) powr real_of_int 1024 = 2 ^ 1024" by simp
  ultimately have "2 ^ 1024 \<le> nearest x" by linarith
  then have "2 ^ 1024 \<le> \<bar>nearest x\<bar>" by linarith
  then show ?thesis using xpos by (simp only: rnd_def if_True)
qed

lemma exp_overflows:
  assumes "1000 \<le> x"
  shows "rnd (exp x) = PosInf"
proof (rule rnd_overflow)
  have "(5 / 2 :: real) \<le> exp 1"
    using exp_lower_Taylor_quadratic [of "1::real"] by simp
  then have "(5 / 2 :: real) ^ 1000 \<le> exp 1 ^ 1000"
    by (intro power_mono) simp_all
  also have "exp (1::real) ^ 1000 = exp 1000"
    using exp_of_nat_mult [of 1000 "1::real"] by simp
  also have "\<dots> \<le> exp x" using assms by simp
  finally have "(5 / 2 :: real) ^ 1000 \<le> exp x" .
  moreover have "(2::real) ^ 1024 \<le> (5 / 2) ^ 1000"
  proof -
    have "(2::real) ^ 1024 \<le> 2 ^ 1250" by (rule power_increasing) simp_all
    also have "(2::real) ^ 1250 = (2 ^ 5) ^ 250" by (simp only: power_mult [symmetric]) simp
    also have "\<dots> \<le> ((5 / 2) ^ 4) ^ 250"
    proof (rule power_mono)
      show "(2::real) ^ 5 \<le> (5 / 2) ^ 4" by (simp add: power_divide)
    qed simp
    also have "\<dots> = (5 / 2) ^ 1000" by (simp only: power_mult [symmetric]) simp
    finally show ?thesis .
  qed
  ultimately show "2 ^ 1024 \<le> exp x" by (rule order_trans [rotated])
qed

lemma fdiv_finite_fixed: "fdiv x y = Num a \<Longrightarrow> rnd a = Num a"
  by (cases x; cases y) (auto split: if_splits intro: rnd_idem)

lemma np_average_fixed: "np_average L xs = Num a \<Longrightarrow> rnd a = Num a"
  unfolding np_average_def by (rule fdiv_finite_fixed)

lemma collect_all_ok:
  "(\<And>x. x \<in> set xs \<Longrightarrow> f x = Inr (g x)) \<Longrightarrow> collect f xs = Inr (map g xs)"
  by (induction xs) simp_all

lemma predictor_losses_ok:
  assumes "list_all (\<lambda>s. length W = length (fst s)) T"
  shows "predictor_losses L W T = Inr (avg_logistic L T W, avg_binary L T W)"
proof -
  have sh: "\<And>s. s \<in> set T \<Longrightarrow> length W = length (fst s)"
    using assms by (simp add: list_all_iff)
  have l: "collect (\<lambda>s. logistic_loss L W (fst s) (snd s)) T
             = Inr (map (\<lambda>s. logistic_of_dot L (dot_f64 L W (fst s)) (snd s)) T)"
    by (rule collect_all_ok) (simp add: logistic_loss_def np_dot_f64_def sh)
  have b: "collect (\<lambda>s. binary_loss_f64 L W (fst s) (snd s)) T
             = Inr (map (\<lambda>s. if fsign (dot_f64 L W (fst s)) \<noteq> Num (real_of_int (snd s))
                               then 1 else 0) T)"
    by (rule collect_all_ok) (simp add: binary_loss_f64_def np_dot_f64_def sh)
  have m: "map (\<lambda>b. Num (real_of_int b))
             (map (\<lambda>s. if fsign (dot_f64 L W (fst s)) \<noteq> Num (real_of_int (snd s))
                        then 1 else 0) T)
           = map (\<lambda>s. Num (if fsign (dot_f64 L W (fst s)) \<noteq> Num (real_of_int (snd s))
                             then 1 else 0)) T"
    by simp
  show ?thesis
    unfolding predictor_losses_def l b sum.case Let_def m avg_logistic_def avg_binary_def ..
qed

lemma losses_loop_ok:
  assumes "shapes_agree Ws T"
  shows "losses_loop L Ws T ll bl
           = Inr (ll @ map (avg_logistic L T) Ws, bl @ map (avg_binary L T) Ws)"
  using assms
proof (induction Ws arbitrary: ll bl)
  case Nil
  then show ?case by simp
next
  case (Cons W Ws)
  from Cons.prems have w: "list_all (\<lambda>s. length W = length (fst s)) T"
    and rest: "shapes_agree Ws T"
    by (simp_all add: shapes_agree_def)
  show ?case
    by (simp add: predictor_losses_ok [OF w] Cons.IH [OF rest])
qed

lemma computeLosses_ok:
  assumes "Ws \<noteq> []" and "shapes_agree Ws T"
  shows "computeLosses L Ws T =
           Inr [fsub (np_average L (map (avg_logistic L T) Ws)) (least (map (avg_logistic L T) Ws)),
                np_std L (map (avg_logistic L T) Ws),
                np_average L (map (avg_binary L T) Ws),
                np_std L (map (avg_binary L T) Ws)]"
proof -
  obtain W rest where ws: "Ws = W # rest" using assms(1) by (cases Ws) auto
  have mn: "np_min (map (avg_logistic L T) Ws) = Inr (least (map (avg_logistic L T) Ws))"
    unfolding ws by (simp add: np_min_def least_def)
  show ?thesis
    unfolding computeLosses_def losses_loop_ok [OF assms(2)] append_Nil sum.case prod.case mn
      Let_def ..
qed


lemma np_average_single:
  assumes "sums_short_lists L" and "rnd a = Num a"
  shows "np_average L [Num a] = Num a"
proof -
  have "sum_f64 L [Num a] = fadd (Num 0) (Num a)"
    using assms(1) by (simp add: sums_short_lists_def)
  then show ?thesis by (simp add: np_average_def assms(2))
qed

lemma np_std_single:
  assumes "sums_short_lists L" and "rnd a = Num a"
  shows "np_std L [Num a] = Num 0"
proof -
  have s: "sum_f64 L [Num 0] = Num 0"
    using assms(1) by (simp add: sums_short_lists_def)
  show ?thesis
    by (simp add: np_std_def np_average_single [OF assms] fsub_def s)
qed

lemma np_average_pair:
  assumes "sums_short_lists L" and "rnd a = Num a" and "\<bar>a\<bar> < 2 ^ 1023"
  shows "np_average L [Num a, Num a] = Num a"
proof -
  have "sum_f64 L [Num a, Num a] = fadd (fadd (Num 0) (Num a)) (Num a)"
    using assms(1) by (simp add: sums_short_lists_def)
  also have "\<dots> = rnd (2 * a)" by (simp add: assms(2))
  also have "\<dots> = Num (2 * a)" using assms(2,3) by (rule rnd_double)
  finally show ?thesis by (simp add: np_average_def assms(2))
qed

lemma np_std_pair:
  assumes "sums_short_lists L" and "rnd a = Num a" and "\<bar>a\<bar> < 2 ^ 1023"
  shows "np_std L [Num a, Num a] = Num 0"
proof -
  have s: "sum_f64 L [Num 0, Num 0] = Num 0"
    using assms(1) by (simp add: sums_short_lists_def)
  show ?thesis
    by (simp add: np_std_def np_average_pair [OF assms] fsub_def s)
qed

lemma magnitude_belowE:
  assumes "magnitude_below B x"
  obtains a where "x = Num a" and "\<bar>a\<bar> < B"
  using assms by (cases x) simp_all


text \<open>
  C9, as amended: for a single predictor whose two average losses over the test set are
  finite, the estimator returns excess risk 0, \<open>std_risk\<close> 0 and \<open>std_binary_err\<close> 0.
\<close>

theorem single_predictor_f64:
  assumes "sums_short_lists L" and "list_all (\<lambda>s. length W = length (fst s)) T"
    and "is_finite (avg_logistic L T W)" and "is_finite (avg_binary L T W)"
  shows "computeLosses L [W] T = Inr [Num 0, Num 0, avg_binary L T W, Num 0]"
proof -
  obtain a where a: "avg_logistic L T W = Num a" using assms(3) by (cases "avg_logistic L T W") simp_all
  obtain b where b: "avg_binary L T W = Num b" using assms(4) by (cases "avg_binary L T W") simp_all
  have ra: "rnd a = Num a" using a unfolding avg_logistic_def by (rule np_average_fixed)
  have rb: "rnd b = Num b" using b unfolding avg_binary_def by (rule np_average_fixed)
  have sh: "shapes_agree [W] T" using assms(2) by (simp add: shapes_agree_def)
  have ne: "[W] \<noteq> []" by simp
  show ?thesis
    unfolding computeLosses_ok [OF ne sh]
    by (simp add: a b least_def fsub_def
        np_average_single [OF assms(1) ra] np_std_single [OF assms(1) ra]
        np_average_single [OF assms(1) rb] np_std_single [OF assms(1) rb])
qed

text \<open>
  C8, as amended: for two identical predictors whose two average losses over the test set
  are finite (and below \<open>2^1023\<close>, so that adding two of them does not overflow), the
  estimator returns \<open>std_risk\<close> 0 and \<open>std_binary_err\<close> 0, and excess risk 0.
\<close>

theorem two_identical_predictors_f64:
  assumes "sums_short_lists L" and "list_all (\<lambda>s. length W = length (fst s)) T"
    and "magnitude_below (2 ^ 1023) (avg_logistic L T W)"
    and "magnitude_below (2 ^ 1023) (avg_binary L T W)"
  shows "computeLosses L [W, W] T = Inr [Num 0, Num 0, avg_binary L T W, Num 0]"
proof -
  from assms(3) obtain a where a: "avg_logistic L T W = Num a" and sa: "\<bar>a\<bar> < 2 ^ 1023"
    by (rule magnitude_belowE)
  from assms(4) obtain b where b: "avg_binary L T W = Num b" and sb: "\<bar>b\<bar> < 2 ^ 1023"
    by (rule magnitude_belowE)
  have ra: "rnd a = Num a" using a unfolding avg_logistic_def by (rule np_average_fixed)
  have rb: "rnd b = Num b" using b unfolding avg_binary_def by (rule np_average_fixed)
  have sh: "shapes_agree [W, W] T" using assms(2) by (simp add: shapes_agree_def)
  have ne: "[W, W] \<noteq> []" by simp
  show ?thesis
    unfolding computeLosses_ok [OF ne sh]
    by (simp add: a b least_def fmin_def fsub_def
        np_average_pair [OF assms(1) ra sa] np_std_pair [OF assms(1) ra sa]
        np_average_pair [OF assms(1) rb sb] np_std_pair [OF assms(1) rb sb])
qed

subsection \<open>Worked inputs on the reference library\<close>

lemma rnd_1 [simp]: "rnd 1 = Num 1"
  using rnd_int [of 1] by simp

lemma rnd_2 [simp]: "rnd 2 = Num 2"
  using rnd_int [of 2] by simp

lemma rnd_3 [simp]: "rnd 3 = Num 3"
  using rnd_int [of 3] by simp

lemma rnd_4 [simp]: "rnd 4 = Num 4"
  using rnd_int [of 4] by simp

lemma rnd_1000 [simp]: "rnd 1000 = Num 1000"
  using rnd_int [of 1000] by simp

lemma rnd_2000 [simp]: "rnd 2000 = Num 2000"
  using rnd_int [of 2000] by simp

lemma ieee_fields:
  "exp_f64 ieee_numpy = exp_ieee" "log_f64 ieee_numpy = log_ieee"
  "dot_f64 ieee_numpy = dot_ieee" "sum_f64 ieee_numpy = sum_ieee"
  by (simp_all add: ieee_numpy_def)

lemma ieee_sums_short_lists: "sums_short_lists ieee_numpy"
  by (simp add: sums_short_lists_def ieee_fields sum_ieee_def)

lemmas ieee_simps =
  ieee_fields sum_ieee_def dot_ieee_def np_average_def avg_logistic_def avg_binary_def
  logistic_of_dot_def

lemma overflow_avg_logistic:
  assumes "1000 \<le> w" and "rnd w = Num w"
  shows "avg_logistic ieee_numpy [([Num 1], - 1)] [Num w] = PosInf"
  using assms by (simp add: ieee_simps exp_overflows)

lemma overflow_avg_binary:
  assumes "1000 \<le> w" and "rnd w = Num w"
  shows "avg_binary ieee_numpy [([Num 1], - 1)] [Num w] = Num 1"
  using assms by (simp add: ieee_simps)

text \<open>
  C9, counterexample: for the single predictor (1000) and the test sample ((1), -1) the
  exponential overflows, the average loss is infinite, and both the excess risk and
  \<open>std_risk\<close> are NaN, not 0.
\<close>

theorem single_predictor_overflow:
  "computeLosses ieee_numpy [[Num 1000]] [([Num 1], - 1)] = Inr [NaN, NaN, Num 1, Num 0]
   \<and> NaN \<noteq> Num 0"
proof -
  have ne: "[[Num 1000]] \<noteq> []" by simp
  have sh: "shapes_agree [[Num 1000]] [([Num 1], - 1)]" by (simp add: shapes_agree_def)
  have a: "avg_logistic ieee_numpy [([Num 1], - 1)] [Num 1000] = PosInf"
    by (rule overflow_avg_logistic) simp_all
  have b: "avg_binary ieee_numpy [([Num 1], - 1)] [Num 1000] = Num 1"
    by (rule overflow_avg_binary) simp_all
  show ?thesis
    unfolding computeLosses_ok [OF ne sh]
    by (simp add: a b least_def fsub_def np_std_def np_average_def ieee_fields sum_ieee_def)
qed


lemma ce8_r1: "rnd (4 / 5) = Num (3602879701896397 / 4503599627370496)"
  using rnd_eval [of 53 "4 / 5" "7205759403792794"] by simp

lemma ce8_r2: "rnd (3602879701896397 / 4503599627370496) = Num (3602879701896397 / 4503599627370496)"
  using rnd_eval [of 53 "3602879701896397 / 4503599627370496" "7205759403792794"] by simp

lemma ce8_r3: "rnd (3602879701896397 / 2251799813685248) = Num (3602879701896397 / 2251799813685248)"
  using rnd_eval [of 52 "3602879701896397 / 2251799813685248" "7205759403792794"] by simp

lemma ce8_r4: "rnd (10808639105689191 / 4503599627370496) = Num (1351079888211149 / 562949953421312)"
  using rnd_eval_tie [of 51 "10808639105689191 / 4503599627370496" "5404319552844595"] by simp

lemma ce8_r5: "rnd (1351079888211149 / 1688849860263936) = Num (7205759403792795 / 9007199254740992)"
  using rnd_eval [of 53 "1351079888211149 / 1688849860263936" "7205759403792795"] by simp

lemma ce8_r6: "rnd (- (1 / 9007199254740992)) = Num (- (1 / 9007199254740992))"
  using rnd_eval [of 105 "- (1 / 9007199254740992)" "- 4503599627370496"] by simp

lemma ce8_r7: "rnd (1 / 81129638414606681695789005144064) = Num (1 / 81129638414606681695789005144064)"
  using rnd_eval [of 158 "1 / 81129638414606681695789005144064" "4503599627370496"] by simp

lemma ce8_r8: "rnd (1 / 40564819207303340847894502572032) = Num (1 / 40564819207303340847894502572032)"
  using rnd_eval [of 157 "1 / 40564819207303340847894502572032" "4503599627370496"] by simp

lemma ce8_r9: "rnd (3 / 81129638414606681695789005144064) = Num (3 / 81129638414606681695789005144064)"
  using rnd_eval [of 157 "3 / 81129638414606681695789005144064" "6755399441055744"] by simp

lemma ce8_r10: "rnd (1 / 9007199254740992) = Num (1 / 9007199254740992)"
  using rnd_eval [of 105 "1 / 9007199254740992" "4503599627370496"] by simp


lemma ce8_sqrt: "sqrt (1 / 81129638414606681695789005144064) = 1 / 9007199254740992"
  by (rule real_sqrt_unique) (simp_all add: power2_eq_square)

lemma ce8_avg_binary:
  "avg_binary ieee_numpy
     [([Num 1], - 1), ([Num 1], - 1), ([Num 1], - 1), ([Num 1], - 1), ([Num 1], 1)] [Num 1]
   = Num (3602879701896397 / 4503599627370496)"
proof -
  have "rnd 5 = Num 5" using rnd_int [of 5] by simp
  then show ?thesis by (simp add: ieee_simps ce8_r1)
qed

lemma ce8_std:
  "np_std ieee_numpy
     [Num (3602879701896397 / 4503599627370496), Num (3602879701896397 / 4503599627370496),
      Num (3602879701896397 / 4503599627370496)]
   = Num (1 / 9007199254740992)"
  by (simp add: np_std_def np_average_def ieee_fields sum_ieee_def fsub_def
      ce8_r2 ce8_r3 ce8_r4 ce8_r5 ce8_r6 ce8_r7 ce8_r8 ce8_r9 ce8_sqrt ce8_r10)

text \<open>
  C8, counterexample: three identical predictors (1) on a test set of five samples, four
  of them misclassified. Each average binary loss is the double nearest to 0.8; the
  computed mean of three of them is one unit in the last place larger, so
  \<open>std_binary_err\<close> is \<open>2^-53\<close>, not 0.
\<close>

theorem three_identical_predictors_nonzero_std:
  "\<not> (\<exists>excess std_risk avg_binary_err.
        computeLosses ieee_numpy [[Num 1], [Num 1], [Num 1]]
          [([Num 1], - 1), ([Num 1], - 1), ([Num 1], - 1), ([Num 1], - 1), ([Num 1], 1)]
        = Inr [excess, std_risk, avg_binary_err, Num 0])"
proof -
  have ne: "[[Num 1], [Num 1], [Num 1]] \<noteq> []" by simp
  have sh: "shapes_agree [[Num 1], [Num 1], [Num 1]]
              [([Num 1], - 1), ([Num 1], - 1), ([Num 1], - 1), ([Num 1], - 1), ([Num 1], 1)]"
    by (simp add: shapes_agree_def)
  show ?thesis
    unfolding computeLosses_ok [OF ne sh]
    by (simp add: ce8_avg_binary ce8_std)
qed

text \<open>
  Rounding alone can put the computed mean below the minimum. For three equal losses,
  each the double nearest to 0.7, the computed mean is one unit in the last place
  smaller than they are, and mean minus minimum is \<open>-2^-53\<close>: the bound on the excess risk
  needs a mean that is not below the minimum.
\<close>

lemma lo_r1: "rnd (3152519739159347 / 4503599627370496) = Num (3152519739159347 / 4503599627370496)"
  using rnd_eval [of 53 "3152519739159347 / 4503599627370496" "6305039478318694"] by simp

lemma lo_r2: "rnd (3152519739159347 / 2251799813685248) = Num (3152519739159347 / 2251799813685248)"
  using rnd_eval [of 52 "3152519739159347 / 2251799813685248" "6305039478318694"] by simp

lemma lo_r3: "rnd (9457559217478041 / 4503599627370496) = Num (1182194902184755 / 562949953421312)"
  using rnd_eval_tie [of 51 "9457559217478041 / 4503599627370496" "4728779608739020"] by simp

lemma lo_r4: "rnd (1182194902184755 / 1688849860263936) = Num (6305039478318693 / 9007199254740992)"
  using rnd_eval [of 53 "1182194902184755 / 1688849860263936" "6305039478318693"] by simp

lemma mean_of_equal_losses_below_minimum:
  "fsub (np_average ieee_numpy
           [Num (3152519739159347 / 4503599627370496), Num (3152519739159347 / 4503599627370496),
            Num (3152519739159347 / 4503599627370496)])
        (least
           [Num (3152519739159347 / 4503599627370496), Num (3152519739159347 / 4503599627370496),
            Num (3152519739159347 / 4503599627370496)])
   = Num (- (1 / 9007199254740992))"
  by (simp add: np_average_def ieee_fields sum_ieee_def least_def fmin_def fsub_def
      lo_r1 lo_r2 lo_r3 lo_r4 ce8_r6)

lemma wit_avg_logistic:
  "\<exists>c. avg_logistic ieee_numpy [([Num 1], 1)] [Num 0] = Num c \<and> 0 \<le> c \<and> c \<le> 1"
proof -
  have "ln (2::real) \<le> 2 - 1" by (rule ln_le_minus_one) simp
  then have "ln (2::real) \<le> 1" by simp
  moreover have "0 \<le> ln (2::real)" by simp
  ultimately obtain c where c: "rnd (ln 2) = Num c" and b: "0 \<le> c" "c \<le> 1"
    using rnd_unit [of "ln 2"] by blast
  have "rnd c = Num c" using c by (rule rnd_idem)
  then have "avg_logistic ieee_numpy [([Num 1], 1)] [Num 0] = Num c"
    by (simp add: ieee_simps c)
  with b show ?thesis by blast
qed

lemma wit_avg_binary: "avg_binary ieee_numpy [([Num 1], 1)] [Num 0] = Num 1"
  by (simp add: ieee_simps)

theorem single_predictor_f64_witness:
  "sums_short_lists ieee_numpy
   \<and> list_all (\<lambda>s. length [Num 0] = length (fst s)) [([Num 1], 1 :: int)]
   \<and> is_finite (avg_logistic ieee_numpy [([Num 1], 1)] [Num 0])
   \<and> is_finite (avg_binary ieee_numpy [([Num 1], 1)] [Num 0])
   \<and> computeLosses ieee_numpy [[Num 0]] [([Num 1], 1)] = Inr [Num 0, Num 0, Num 1, Num 0]"
proof -
  obtain c where c: "avg_logistic ieee_numpy [([Num 1], 1)] [Num 0] = Num c"
    using wit_avg_logistic by blast
  show ?thesis
    using single_predictor_f64 [of ieee_numpy "[Num 0]" "[([Num 1], 1)]"]
    by (simp add: ieee_sums_short_lists c wit_avg_binary)
qed

theorem two_identical_predictors_f64_witness:
  "sums_short_lists ieee_numpy
   \<and> list_all (\<lambda>s. length [Num 0] = length (fst s)) [([Num 1], 1 :: int)]
   \<and> magnitude_below (2 ^ 1023) (avg_logistic ieee_numpy [([Num 1], 1)] [Num 0])
   \<and> magnitude_below (2 ^ 1023) (avg_binary ieee_numpy [([Num 1], 1)] [Num 0])
   \<and> computeLosses ieee_numpy [[Num 0], [Num 0]] [([Num 1], 1)]
       = Inr [Num 0, Num 0, Num 1, Num 0]"
proof -
  obtain c where c: "avg_logistic ieee_numpy [([Num 1], 1)] [Num 0] = Num c"
    and b: "0 \<le> c" "c \<le> 1"
    using wit_avg_logistic by blast
  have "\<bar>c\<bar> < 2 ^ 1023" using b by simp
  then show ?thesis
    using two_identical_predictors_f64 [of ieee_numpy "[Num 0]" "[([Num 1], 1)]"]
    by (simp add: ieee_sums_short_lists c wit_avg_binary)
qed


end
